theory Spec2Isabelle
  imports Complex_Main "HOL-Library.Sublist" "HOL-Library.Log_Nat"
begin

section \<open>The museum front-end: values and upstream services\<close>

text \<open>
  The program is one Express module, \<^verbatim>\<open>src/index.js\<close>, with four route handlers.
  Each handler is embedded as a function of the request and of an environment that gives
  the outcome of every outbound call (the collection API and the translation service).
  Text is held as its UTF-8 bytes. The page number and the slice offsets are JavaScript
  numbers: integers rounded to the nearest double, infinities and \<^verbatim>\<open>NaN\<close>.
\<close>

subsection \<open>Numbers\<close>

text \<open>
  The values a number takes in the handlers: an integer that a double holds, an infinity,
  or \<^verbatim>\<open>NaN\<close>. The two zeros are one value; both are falsy.
\<close>

datatype js_num = Num int | PosInf | NegInf | NaN

text \<open>
  Rounding a magnitude to the nearest double, ties to the even mantissa: below \<open>2 ^ 53\<close>
  every integer is a double; above, the mantissa keeps the 53 leading binary digits.
\<close>

definition round_mag :: "nat \<Rightarrow> nat" where
  "round_mag a =
     (if a < 2 ^ 53 then a
      else (let e = floorlog 2 a - 53;
                q = a div 2 ^ e;
                r = a mod 2 ^ e
            in (if 2 ^ e < 2 * r \<or> (2 * r = 2 ^ e \<and> odd q) then q + 1 else q) * 2 ^ e))"

text \<open>The double of an integer; a rounded magnitude of \<open>2 ^ 1024\<close> or more overflows.\<close>

definition to_double :: "int \<Rightarrow> js_num" where
  "to_double n =
     (let m = round_mag (nat \<bar>n\<bar>)
      in if 2 ^ 1024 \<le> m then (if n < 0 then NegInf else PosInf)
         else Num (if n < 0 then - int m else int m))"

text \<open>\<^verbatim>\<open>x + k\<close> and \<^verbatim>\<open>x * k\<close> for an integer constant \<open>k\<close>, rounded once.\<close>

definition js_add :: "js_num \<Rightarrow> int \<Rightarrow> js_num" where
  "js_add x k =
     (case x of Num n \<Rightarrow> to_double (n + k) | PosInf \<Rightarrow> PosInf | NegInf \<Rightarrow> NegInf | NaN \<Rightarrow> NaN)"

definition js_mul :: "js_num \<Rightarrow> int \<Rightarrow> js_num" where
  "js_mul x k =
     (case x of
        Num n \<Rightarrow> to_double (n * k)
      | PosInf \<Rightarrow> (if 0 < k then PosInf else if k < 0 then NegInf else NaN)
      | NegInf \<Rightarrow> (if 0 < k then NegInf else if k < 0 then PosInf else NaN)
      | NaN \<Rightarrow> NaN)"

definition js_falsy :: "js_num \<Rightarrow> bool" where
  "js_falsy x = (x = NaN \<or> x = Num 0)"

subsection \<open>Errors and promises\<close>

text \<open>
  A rejected promise carries an error object. The handlers read its \<^verbatim>\<open>message\<close> and,
  in \<^verbatim>\<open>/results\<close>, \<^verbatim>\<open>error.response.status\<close> (absent for a network failure).
\<close>

record js_error =
  err_message :: string
  err_status :: "nat option"

datatype 'a promise_state = Pending | Fulfilled 'a | Rejected js_error

text \<open>
  \<^verbatim>\<open>Promise.all(ps)\<close>: the input promises settle in some order \<open>sched\<close> (a list of
  indices, first settled first). A fulfilled promise writes its value into the slot of
  its own index; the first rejection rejects the whole; when every slot is filled the
  result is the array of slots. While a slot is empty the result is pending.
\<close>

fun promise_all_steps ::
  "nat list \<Rightarrow> (js_error + 'a) list \<Rightarrow> 'a option list \<Rightarrow> 'a list promise_state" where
  "promise_all_steps [] outs slots =
     (case those slots of Some vs \<Rightarrow> Fulfilled vs | None \<Rightarrow> Pending)"
| "promise_all_steps (i # sched) outs slots =
     (if i < length outs then
        (case outs ! i of
           Inl e \<Rightarrow> Rejected e
         | Inr v \<Rightarrow> promise_all_steps sched outs (slots[i := Some v]))
      else promise_all_steps sched outs slots)"

definition promise_all :: "nat list \<Rightarrow> (js_error + 'a) list \<Rightarrow> 'a list promise_state" where
  "promise_all sched outs = promise_all_steps sched outs (replicate (length outs) None)"

text \<open>A completion order is admissible when every promise of the batch settles in it.\<close>

definition settles_all :: "nat list \<Rightarrow> nat \<Rightarrow> bool" where
  "settles_all sched n = list_all (\<lambda>i. i \<in> set sched) [0..<n]"

subsection \<open>Data of the collection API\<close>

record department =
  departmentId :: int
  displayName :: string

text \<open>
  An object record as the handlers read it. A field that is absent, \<^verbatim>\<open>null\<close> or
  \<^verbatim>\<open>undefined\<close> is \<open>None\<close>; the upstream API sends \<^verbatim>\<open>""\<close> for a text it does not have.
\<close>

record art_object =
  objectID :: int
  title :: "string option"
  culture :: "string option"
  dynasty :: "string option"
  primaryImage :: "string option"
  additionalImages :: "string list option"

text \<open>
  The body of a search response: \<^verbatim>\<open>total\<close> and \<^verbatim>\<open>objectIDs\<close>, the latter \<open>None\<close>
  when it is not an array (the API sends \<^verbatim>\<open>null\<close> when nothing matches).
\<close>

record search_data =
  total :: "int option"
  objectIDs :: "int list option"

text \<open>JavaScript truthiness of an optional string: present and not empty.\<close>

definition truthy :: "string option \<Rightarrow> bool" where
  "truthy v = (case v of None \<Rightarrow> False | Some s \<Rightarrow> s \<noteq> [])"

text \<open>
  The environment of a request: the outcome of each outbound call. \<open>Inl\<close> is a rejected
  promise. \<open>get_object\<close> is \<^verbatim>\<open>GET /objects/{id}\<close> for an id of a listing,
  \<open>get_object_path\<close> the same endpoint for the raw path segment of
  \<^verbatim>\<open>/object/:id/additional-images\<close>. \<open>translate\<close> is the imported translation
  function (English to Spanish): a call that fails is a rejected promise, a call that
  succeeds carries the text of \<^verbatim>\<open>.translation\<close>, the only part the handlers read.
\<close>

record env =
  get_departments :: "js_error + department list"
  get_search :: "string \<Rightarrow> js_error + search_data option"
  get_object :: "int \<Rightarrow> js_error + art_object"
  get_object_path :: "string \<Rightarrow> js_error + art_object"
  translate :: "string \<Rightarrow> js_error + string"

subsection \<open>Requests and responses\<close>

text \<open>
  The query parameters of a request, each given at most once, as text; \<open>None\<close> when the
  parameter is absent.
\<close>

record request =
  q_departmentId :: "string option"
  q_keyword :: "string option"
  q_location :: "string option"
  q_page :: "string option"

text \<open>
  The data handed to the \<^verbatim>\<open>results\<close> template. The \<^verbatim>\<open>/results\<close> route passes only
  the first three fields, the others are then \<open>None\<close>.
\<close>

record results_view =
  objects :: "art_object list"
  currentPage :: js_num
  totalPages :: int
  view_departmentId :: "string option"
  view_keyword :: "string option"
  view_location :: "string option"
  view_message :: "string option"

datatype body =
    RenderIndex "department list"
  | RenderResults results_view
  | Json "string list"
  | Text string

datatype response = Response (status: nat) (body: body)

text \<open>An upstream call issued by a handler.\<close>

datatype call = GetSearch string | GetObject int | Translate string

section \<open>Helpers of the runtime\<close>

text \<open>
  White space, as \<^verbatim>\<open>parseInt\<close> skips it: the six ASCII characters, and in UTF-8 the
  characters U+00A0, U+1680, U+2000 to U+200A, U+2028, U+2029, U+202F, U+205F, U+3000 and
  U+FEFF.
\<close>

definition ascii_space :: "char \<Rightarrow> bool" where
  "ascii_space c = (c \<in> set [CHR 0x09, CHR 0x0A, CHR 0x0B, CHR 0x0C, CHR 0x0D, CHR 0x20])"

definition space2 :: "char \<Rightarrow> char \<Rightarrow> bool" where
  "space2 a b = (a = CHR 0xC2 \<and> b = CHR 0xA0)"

definition space3 :: "char \<Rightarrow> char \<Rightarrow> char \<Rightarrow> bool" where
  "space3 a b c =
     ((a = CHR 0xE1 \<and> b = CHR 0x9A \<and> c = CHR 0x80)
      \<or> (a = CHR 0xE2 \<and> b = CHR 0x80
          \<and> ((0x80 \<le> (of_char c :: nat) \<and> (of_char c :: nat) \<le> 0x8A)
              \<or> c = CHR 0xA8 \<or> c = CHR 0xA9 \<or> c = CHR 0xAF))
      \<or> (a = CHR 0xE2 \<and> b = CHR 0x81 \<and> c = CHR 0x9F)
      \<or> (a = CHR 0xE3 \<and> b = CHR 0x80 \<and> c = CHR 0x80)
      \<or> (a = CHR 0xEF \<and> b = CHR 0xBB \<and> c = CHR 0xBF))"

fun skip_space :: "string \<Rightarrow> string" where
  "skip_space (a # b # c # r) =
     (if ascii_space a then skip_space (b # c # r)
      else if space2 a b then skip_space (c # r)
      else if space3 a b c then skip_space r
      else a # b # c # r)"
| "skip_space [a, b] =
     (if ascii_space a then skip_space [b] else if space2 a b then [] else [a, b])"
| "skip_space [a] = (if ascii_space a then [] else [a])"
| "skip_space [] = []"

text \<open>
  \<^verbatim>\<open>parseInt(s)\<close> with no radix: leading white space is skipped, then an optional
  sign, then a \<^verbatim>\<open>0x\<close> prefix selects radix 16, then the longest run of digits is read;
  no digit gives \<^verbatim>\<open>NaN\<close>, otherwise the result is the double nearest to the integer read.
\<close>

definition digit_val :: "char \<Rightarrow> nat" where
  "digit_val c =
     (let n = (of_char c :: nat) in
      if 48 \<le> n \<and> n \<le> 57 then n - 48
      else if 97 \<le> n \<and> n \<le> 122 then n - 87
      else if 65 \<le> n \<and> n \<le> 90 then n - 55
      else 36)"

definition parseInt :: "string \<Rightarrow> js_num" where
  "parseInt s =
     (let s1 = skip_space s;
          (sign, s2) = (case s1 of
                          c # r \<Rightarrow> if c = CHR ''-'' then (- 1 :: int, r)
                                   else if c = CHR ''+'' then (1, r) else (1, s1)
                        | [] \<Rightarrow> (1, s1));
          (radix, s3) = (case s2 of
                           c # x # r \<Rightarrow>
                             if c = CHR ''0'' \<and> (x = CHR ''x'' \<or> x = CHR ''X'')
                             then (16 :: nat, r) else (10, s2)
                         | _ \<Rightarrow> (10, s2));
          ds = takeWhile (\<lambda>c. digit_val c < radix) s3
      in if ds = [] then NaN
         else to_double (sign * int (foldl (\<lambda>a c. a * radix + digit_val c) 0 ds)))"

text \<open>
  \<^verbatim>\<open>parseInt(req.query.page) || 1\<close>: an absent parameter is \<^verbatim>\<open>undefined\<close>, which
  \<^verbatim>\<open>parseInt\<close> reads as the text \<^verbatim>\<open>"undefined"\<close>; \<^verbatim>\<open>NaN\<close> and \<^verbatim>\<open>0\<close> are falsy.
\<close>

definition page_param :: "string option \<Rightarrow> js_num" where
  "page_param raw =
     (let page = parseInt (case raw of None \<Rightarrow> ''undefined'' | Some s \<Rightarrow> s)
      in if js_falsy page then Num 1 else page)"

text \<open>\<^verbatim>\<open>req.query.x || ''\<close>.\<close>

definition or_empty :: "string option \<Rightarrow> string" where
  "or_empty v = (case v of None \<Rightarrow> [] | Some s \<Rightarrow> s)"

text \<open>
  \<^verbatim>\<open>xs.slice(start, end)\<close>: each index is made relative to the array, a negative one
  counting from the end, and clamped to it; \<^verbatim>\<open>NaN\<close> counts as 0.
\<close>

definition relative_index :: "nat \<Rightarrow> js_num \<Rightarrow> int" where
  "relative_index len v =
     (case v of
        Num k \<Rightarrow> if k < 0 then max (int len + k) 0 else min k (int len)
      | PosInf \<Rightarrow> int len
      | NegInf \<Rightarrow> 0
      | NaN \<Rightarrow> 0)"

definition js_slice :: "'a list \<Rightarrow> js_num \<Rightarrow> js_num \<Rightarrow> 'a list" where
  "js_slice xs start fin =
     (let k = relative_index (length xs) start;
          final = relative_index (length xs) fin
      in take (nat (final - k)) (drop (nat k) xs))"

text \<open>\<^verbatim>\<open>Math.ceil(a / b)\<close>.\<close>

definition math_ceil_div :: "int \<Rightarrow> int \<Rightarrow> int" where
  "math_ceil_div a b = \<lceil>real_of_int a / real_of_int b\<rceil>"

section \<open>The route handlers\<close>

subsection \<open>\<^verbatim>\<open>GET /\<close>: the department list\<close>

text \<open>
  The mapper of the department list: the translation of \<^verbatim>\<open>displayName\<close> is awaited
  inside its own \<^verbatim>\<open>try\<close>; the \<^verbatim>\<open>catch\<close> returns the department with its original
  name. The mapper's promise never rejects.
\<close>

definition translate_department :: "env \<Rightarrow> department \<Rightarrow> js_error + department" where
  "translate_department env d =
     (case translate env (displayName d) of
        Inr t \<Rightarrow> Inr \<lparr>departmentId = departmentId d, displayName = t\<rparr>
      | Inl e \<Rightarrow> Inr \<lparr>departmentId = departmentId d, displayName = displayName d\<rparr>)"

definition index_handler :: "env \<Rightarrow> nat list \<Rightarrow> response option" where
  "index_handler env sched =
     (case get_departments env of
        Inl e \<Rightarrow> Some (Response 500 (Text ''Error al cargar departamentos.''))
      | Inr departments \<Rightarrow>
          (case promise_all sched (map (translate_department env) departments) of
             Pending \<Rightarrow> None
           | Rejected e \<Rightarrow> Some (Response 500 (Text ''Error al cargar departamentos.''))
           | Fulfilled translatedDepartments \<Rightarrow>
               Some (Response 200 (RenderIndex translatedDepartments))))"

subsection \<open>\<^verbatim>\<open>GET /search\<close>\<close>

definition search_url :: "string \<Rightarrow> string \<Rightarrow> string \<Rightarrow> string" where
  "search_url dep kw loc =
     (let url = ''https://collectionapi.metmuseum.org/public/collection/v1/search?hasImages=true'';
          url = (if dep \<noteq> [] then url @ ''&departmentId='' @ dep else url);
          url = (if kw \<noteq> [] then url @ ''&q='' @ kw else url);
          url = (if loc \<noteq> [] then url @ ''&geoLocation='' @ loc else url)
      in url)"

text \<open>
  One of the three \<^verbatim>\<open>if (obj.f) { obj.f = (await translate(...)).translation }\<close> steps:
  the calls it issues, and the object after it or the error the translation raised.
\<close>

definition translate_field ::
  "env \<Rightarrow> (art_object \<Rightarrow> string option) \<Rightarrow> (string option \<Rightarrow> art_object \<Rightarrow> art_object)
     \<Rightarrow> art_object \<Rightarrow> call list \<times> (js_error + art_object)" where
  "translate_field env field put obj =
     (case field obj of
        None \<Rightarrow> ([], Inr obj)
      | Some s \<Rightarrow>
          if s = [] then ([], Inr obj)
          else (case translate env s of
                  Inl e \<Rightarrow> ([Translate s], Inl e)
                | Inr t \<Rightarrow> ([Translate s], Inr (put (Some t) obj))))"

text \<open>
  The mapper of \<^verbatim>\<open>/search\<close>: the fetch and the three translations run in sequence
  inside one \<^verbatim>\<open>try\<close>, whose \<^verbatim>\<open>catch\<close> returns \<^verbatim>\<open>null\<close> (\<open>None\<close>) for any error. The
  result is the calls issued for this id and the value the mapper's promise fulfils with.
\<close>

definition search_item :: "env \<Rightarrow> int \<Rightarrow> call list \<times> art_object option" where
  "search_item env oid =
     (case get_object env oid of
        Inl e \<Rightarrow> ([GetObject oid], None)
      | Inr obj \<Rightarrow>
          (case translate_field env title (\<lambda>v ob. ob\<lparr>title := v\<rparr>) obj of
             (c1, Inl e) \<Rightarrow> (GetObject oid # c1, None)
           | (c1, Inr o1) \<Rightarrow>
               (case translate_field env culture (\<lambda>v ob. ob\<lparr>culture := v\<rparr>) o1 of
                  (c2, Inl e) \<Rightarrow> (GetObject oid # c1 @ c2, None)
                | (c2, Inr o2) \<Rightarrow>
                    (case translate_field env dynasty (\<lambda>v ob. ob\<lparr>dynasty := v\<rparr>) o2 of
                       (c3, Inl e) \<Rightarrow> (GetObject oid # c1 @ c2 @ c3, None)
                     | (c3, Inr o3) \<Rightarrow> (GetObject oid # c1 @ c2 @ c3, Some o3)))))"

text \<open>\<^verbatim>\<open>filter(obj => obj !== null && obj.primaryImage)\<close>.\<close>

definition displayable :: "art_object option \<Rightarrow> bool" where
  "displayable r = (case r of None \<Rightarrow> False | Some obj \<Rightarrow> truthy (primaryImage obj))"

definition search_error :: "js_error \<Rightarrow> response" where
  "search_error e =
     Response 500 (Text (''Error al recuperar los objetos de arte: '' @ err_message e))"

text \<open>
  The handler returns the upstream calls it issues and its response (\<open>None\<close> while the
  batch is pending). The calls of the batch are listed id by id; the mappers run
  interleaved, so only the content of that part of the list is meaningful, not its order.
\<close>

definition search_handler :: "env \<Rightarrow> nat list \<Rightarrow> request \<Rightarrow> call list \<times> response option" where
  "search_handler env sched req =
     (let dep = or_empty (q_departmentId req);
          kw = or_empty (q_keyword req);
          loc = or_empty (q_location req);
          page = page_param (q_page req);
          limit = 20;
          offset = js_mul (js_add page (- 1)) limit;
          url = search_url dep kw loc;
          no_results = Response 200 (RenderResults
            \<lparr>objects = [], currentPage = page, totalPages = 0,
             view_departmentId = Some dep, view_keyword = Some kw, view_location = Some loc,
             view_message = Some ''No se encontraron resultados para los filtros aplicados.''\<rparr>)
      in case get_search env url of
           Inl e \<Rightarrow> ([GetSearch url], Some (search_error e))
         | Inr None \<Rightarrow> ([GetSearch url], Some no_results)
         | Inr (Some d) \<Rightarrow>
             (case objectIDs d of
                None \<Rightarrow> ([GetSearch url], Some no_results)
              | Some ids \<Rightarrow>
                  if length ids = 0 then ([GetSearch url], Some no_results)
                  else
                    (let items = map (search_item env) (js_slice ids offset (js_add offset limit));
                         totalObjects = (case total d of None \<Rightarrow> 0 | Some t \<Rightarrow> t)
                     in (GetSearch url # concat (map fst items),
                         case promise_all sched (map (\<lambda>it. Inr (snd it)) items) of
                           Pending \<Rightarrow> None
                         | Rejected e \<Rightarrow> Some (search_error e)
                         | Fulfilled rs \<Rightarrow>
                             Some (Response 200 (RenderResults
                               \<lparr>objects = List.map_filter (\<lambda>r. if displayable r then r else None) rs,
                                currentPage = page,
                                totalPages = math_ceil_div totalObjects limit,
                                view_departmentId = Some dep, view_keyword = Some kw,
                                view_location = Some loc, view_message = None\<rparr>))))))"

subsection \<open>\<^verbatim>\<open>GET /object/:id/additional-images\<close>\<close>

definition additional_images_handler :: "env \<Rightarrow> string \<Rightarrow> response" where
  "additional_images_handler env objectId =
     (case get_object_path env objectId of
        Inl e \<Rightarrow>
          Response 500
            (Text (''Error al recuperar las im'' @ [CHR 0xC3, CHR 0xA1] @ ''genes adicionales.''))
      | Inr object \<Rightarrow>
          (case additionalImages object of
             None \<Rightarrow> Response 200 (Json [])
           | Some images \<Rightarrow>
               if length images > 0 then Response 200 (Json images)
               else Response 200 (Json [])))"

subsection \<open>\<^verbatim>\<open>GET /results\<close>\<close>

text \<open>
  The mapper of \<^verbatim>\<open>/results\<close>: a 404 gives \<^verbatim>\<open>null\<close>, any other error is thrown again,
  so the mapper's promise rejects.
\<close>

definition results_item :: "env \<Rightarrow> int \<Rightarrow> js_error + art_object option" where
  "results_item env oid =
     (case get_object env oid of
        Inr obj \<Rightarrow> Inr (Some obj)
      | Inl e \<Rightarrow> if err_status e = Some 404 then Inr None else Inl e)"

definition results_error :: response where
  "results_error = Response 500 (Text ''Error al obtener resultados'')"

text \<open>
  The module neither declares nor imports \<^verbatim>\<open>getAllObjectsFromAPI\<close>: it imports express,
  path, url, axios and the translation package, and declares no function. In an ES
  module the call of an unbound identifier throws a \<^verbatim>\<open>ReferenceError\<close>.
\<close>

definition reference_error :: js_error where
  "reference_error =
     \<lparr>err_message = ''getAllObjectsFromAPI is not defined'', err_status = None\<rparr>"

definition getAllObjectsFromAPI :: "js_error + int list" where
  "getAllObjectsFromAPI = Inl reference_error"

text \<open>
  The handler returns the object fetches it issues and its response. The call of
  \<^verbatim>\<open>getAllObjectsFromAPI\<close> is inside the \<^verbatim>\<open>try\<close>, whose \<^verbatim>\<open>catch\<close> answers 500. After it
  every mapper would start its fetch when the batch is built.
\<close>

definition results_handler :: "env \<Rightarrow> nat list \<Rightarrow> request \<Rightarrow> call list \<times> response option" where
  "results_handler env sched req =
     (let page = page_param (q_page req);
          itemsPerPage = 10
      in case getAllObjectsFromAPI of
           Inl e \<Rightarrow> ([], Some results_error)
         | Inr allObjects \<Rightarrow>
             (let startIndex = js_mul (js_add page (- 1)) itemsPerPage;
                  endIndex = js_add startIndex itemsPerPage;
                  ids = js_slice allObjects startIndex endIndex
              in (map GetObject ids,
                  case promise_all sched (map (results_item env) ids) of
                    Pending \<Rightarrow> None
                  | Rejected e \<Rightarrow> Some results_error
                  | Fulfilled validObjects \<Rightarrow>
                      Some (Response 200 (RenderResults
                        \<lparr>objects = List.map_filter (\<lambda>r. r) validObjects,
                         currentPage = page,
                         totalPages = math_ceil_div (int (length allObjects)) itemsPerPage,
                         view_departmentId = None, view_keyword = None,
                         view_location = None, view_message = None\<rparr>)))))"

section \<open>Notions used in the statements\<close>

text \<open>The ids of the object fetches among the calls of a handler, in the order listed.\<close>

fun fetched :: "call list \<Rightarrow> int list" where
  "fetched [] = []"
| "fetched (GetObject i # cs) = i # fetched cs"
| "fetched (c # cs) = fetched cs"

text \<open>The texts sent to the translation service among the calls of a handler.\<close>

fun translated :: "call list \<Rightarrow> string list" where
  "translated [] = []"
| "translated (Translate s # cs) = s # translated cs"
| "translated (c # cs) = translated cs"

text \<open>The results view a handler rendered, if it rendered one.\<close>

definition view_of :: "response option \<Rightarrow> results_view option" where
  "view_of r =
     (case r of
        Some (Response st (RenderResults v)) \<Rightarrow> Some v
      | _ \<Rightarrow> None)"

text \<open>The objects a response renders: those of a results view, none otherwise.\<close>

definition rendered :: "response option \<Rightarrow> art_object list" where
  "rendered r = (case view_of r of Some v \<Rightarrow> objects v | None \<Rightarrow> [])"

text \<open>The objects of a batch result that the search page keeps: not \<^verbatim>\<open>null\<close>, with an image.\<close>

definition shown :: "art_object option \<Rightarrow> art_object list" where
  "shown r = (case r of None \<Rightarrow> [] | Some obj \<Rightarrow> if truthy (primaryImage obj) then [obj] else [])"

text \<open>A search response that carries no object id.\<close>

definition carries_no_ids :: "search_data option \<Rightarrow> bool" where
  "carries_no_ids data =
     (case data of
        None \<Rightarrow> True
      | Some d \<Rightarrow> (case objectIDs d of None \<Rightarrow> True | Some ids \<Rightarrow> ids = []))"

definition search_base :: string where
  "search_base = ''https://collectionapi.metmuseum.org/public/collection/v1/search?hasImages=true''"

text \<open>The upstream search URL of a request, as the handler builds it.\<close>

definition request_url :: "request \<Rightarrow> string" where
  "request_url req =
     search_url (or_empty (q_departmentId req)) (or_empty (q_keyword req)) (or_empty (q_location req))"

text \<open>The ids of page \<open>p\<close> of a listing, for a page size \<open>n\<close>, as the handlers slice them.\<close>

definition page_ids :: "int list \<Rightarrow> js_num \<Rightarrow> int \<Rightarrow> int list" where
  "page_ids ids p n = js_slice ids (js_mul (js_add p (- 1)) n) (js_add (js_mul (js_add p (- 1)) n) n)"


section \<open>Sample data\<close>

definition network_error :: js_error where
  "network_error = \<lparr>err_message = ''Network Error'', err_status = None\<rparr>"

definition not_found :: js_error where
  "not_found = \<lparr>err_message = ''Request failed with status code 404'', err_status = Some 404\<rparr>"

definition vase :: art_object where
  "vase = \<lparr>objectID = 1, title = Some ''Vase'', culture = Some ''Greek'', dynasty = Some [],
           primaryImage = Some ''https://images.metmuseum.org/1.jpg'',
           additionalImages = Some []\<rparr>"

definition fragment :: art_object where
  "fragment = \<lparr>objectID = 2, title = Some ''Fragment'', culture = None, dynasty = None,
               primaryImage = None, additionalImages = None\<rparr>"

definition bowl :: art_object where
  "bowl = \<lparr>objectID = 4, title = Some ''Bowl'', culture = Some [], dynasty = Some ''Ming'',
           primaryImage = Some ''https://images.metmuseum.org/4.jpg'',
           additionalImages = Some [''https://images.metmuseum.org/4b.jpg'']\<rparr>"

text \<open>
  The sample environment: objects 1, 2 and 4 exist, every other id is a 404; the
  translation service prefixes the text with \<^verbatim>\<open>es:\<close>.
\<close>

definition sample_env :: env where
  "sample_env =
     \<lparr>get_departments = Inr [\<lparr>departmentId = 1, displayName = ''Arms and Armor''\<rparr>],
      get_search = (\<lambda>url. Inr (Some \<lparr>total = Some 45, objectIDs = Some [4, 2, 3, 1]\<rparr>)),
      get_object =
        (\<lambda>i. if i = 1 then Inr vase else if i = 2 then Inr fragment
             else if i = 4 then Inr bowl else Inl not_found),
      get_object_path =
        (\<lambda>s. if s = ''1'' then Inr vase else if s = ''2'' then Inr fragment
             else if s = ''4'' then Inr bowl else Inl not_found),
      translate = (\<lambda>s. Inr (''es:'' @ s))\<rparr>"

text \<open>The objects 1 and 4 after translation.\<close>

definition vase_es :: art_object where
  "vase_es = vase\<lparr>title := Some ''es:Vase'', culture := Some ''es:Greek''\<rparr>"

definition bowl_es :: art_object where
  "bowl_es = bowl\<lparr>title := Some ''es:Bowl'', dynasty := Some ''es:Ming''\<rparr>"

text \<open>The translation service is down.\<close>

definition untranslated_env :: env where
  "untranslated_env = sample_env\<lparr>translate := (\<lambda>s. Inl network_error)\<rparr>"

text \<open>
  The collection API fails on object 2 with a network error (no status); object 3 is a
  404 as before.
\<close>

definition flaky_env :: env where
  "flaky_env =
     sample_env\<lparr>get_object :=
       (\<lambda>i. if i = 2 then Inl network_error else get_object sample_env i)\<rparr>"

text \<open>The collection API fails on every object.\<close>

definition unreachable_env :: env where
  "unreachable_env = sample_env\<lparr>get_object := (\<lambda>i. Inl network_error)\<rparr>"

text \<open>A search with no match: the API sends \<^verbatim>\<open>{"total": 0, "objectIDs": null}\<close>.\<close>

definition no_match_env :: env where
  "no_match_env = sample_env\<lparr>get_search := (\<lambda>url. Inr (Some \<lparr>total = Some 0, objectIDs = None\<rparr>))\<rparr>"

text \<open>A search that matches 45 objects, none of which the API has a record for.\<close>

definition ids45 :: "int list" where
  "ids45 = map int [1..<46]"

definition env45 :: env where
  "env45 =
     sample_env\<lparr>get_search := (\<lambda>url. Inr (Some \<lparr>total = Some 45, objectIDs = Some ids45\<rparr>))\<rparr>"

definition plain_request :: request where
  "plain_request = \<lparr>q_departmentId = None, q_keyword = None, q_location = None, q_page = None\<rparr>"

section \<open>Properties of the model\<close>

subsection \<open>Batches of promises\<close>

lemma settles_all_iff: "settles_all sched n \<longleftrightarrow> {..<n} \<subseteq> set sched"
  by (auto simp: settles_all_def list_all_iff)

lemma those_map_Some: "those (map Some xs) = Some xs"
  by (induction xs) auto

lemma promise_all_steps_fulfilled:
  assumes "length slots = length outs"
    and "\<forall>i < length outs. slots ! i = None \<or> slots ! i = Some (projr (outs ! i))"
    and "\<forall>i < length outs. slots ! i = None \<longrightarrow> i \<in> set sched"
    and "\<forall>i < length outs. \<not> isl (outs ! i)"
  shows "promise_all_steps sched outs slots = Fulfilled (map projr outs)"
  using assms
proof (induction sched arbitrary: slots)
  case Nil
  have "slots ! i = Some (projr (outs ! i))" if "i < length outs" for i
    using Nil.prems(2,3) that by (metis empty_iff list.set(1))
  with Nil.prems(1) have "slots = map Some (map projr outs)"
    by (auto intro!: nth_equalityI)
  then show ?case by (simp add: those_map_Some del: map_map)
next
  case (Cons i sched)
  show ?case
  proof (cases "i < length outs")
    case True
    then obtain v where v: "outs ! i = Inr v" using Cons.prems(4)
      by (cases "outs ! i") auto
    have "promise_all_steps sched outs (slots[i := Some v]) = Fulfilled (map projr outs)"
    proof (rule Cons.IH)
      show "length (slots[i := Some v]) = length outs" using Cons.prems(1) by simp
      show "\<forall>j<length outs. slots[i := Some v] ! j = None \<or> slots[i := Some v] ! j = Some (projr (outs ! j))"
      proof (intro allI impI)
        fix j assume j: "j < length outs"
        show "slots[i := Some v] ! j = None \<or> slots[i := Some v] ! j = Some (projr (outs ! j))"
        proof (cases "j = i")
          case True
          with j Cons.prems(1) v show ?thesis by simp
        next
          case False
          with j Cons.prems(2) show ?thesis by simp
        qed
      qed
      show "\<forall>j<length outs. slots[i := Some v] ! j = None \<longrightarrow> j \<in> set sched"
      proof (intro allI impI)
        fix j assume j: "j < length outs" and n: "slots[i := Some v] ! j = None"
        from j n Cons.prems(1) have ne: "j \<noteq> i" by auto
        with n have "slots ! j = None" by simp
        with j Cons.prems(3) ne show "j \<in> set sched" by auto
      qed
      show "\<forall>i<length outs. \<not> isl (outs ! i)" by (rule Cons.prems(4))
    qed
    with True v show ?thesis by simp
  next
    case False
    have "promise_all_steps sched outs slots = Fulfilled (map projr outs)"
    proof (rule Cons.IH)
      show "\<forall>j<length outs. slots ! j = None \<longrightarrow> j \<in> set sched"
        using Cons.prems(3) False by auto
    qed (use Cons.prems in auto)
    with False show ?thesis by simp
  qed
qed

lemma promise_all_fulfilled:
  assumes "settles_all sched (length outs)" and "\<forall>i < length outs. \<not> isl (outs ! i)"
  shows "promise_all sched outs = Fulfilled (map projr outs)"
  unfolding promise_all_def
  using assms by (intro promise_all_steps_fulfilled) (auto simp: settles_all_iff)

lemma promise_all_Inr:
  assumes "settles_all sched (length xs)"
  shows "promise_all sched (map (\<lambda>x. Inr (f x)) xs) = Fulfilled (map f xs)"
  using promise_all_fulfilled[of sched "map (\<lambda>x. Inr (f x)) xs"] assms
  by (simp add: comp_def)

lemma promise_all_steps_rejected:
  assumes "\<exists>i \<in> set sched. i < length outs \<and> isl (outs ! i)"
  shows "\<exists>e. promise_all_steps sched outs slots = Rejected e \<and> Inl e \<in> set outs"
  using assms
proof (induction sched arbitrary: slots)
  case Nil
  then show ?case by simp
next
  case (Cons i sched)
  show ?case
  proof (cases "i < length outs \<and> isl (outs ! i)")
    case True
    then obtain e where "outs ! i = Inl e" by (cases "outs ! i") auto
    with True show ?thesis by (auto simp: in_set_conv_nth)
  next
    case False
    with Cons.prems have "\<exists>i \<in> set sched. i < length outs \<and> isl (outs ! i)" by auto
    from Cons.IH[OF this] show ?thesis using False
      by (auto split: sum.splits)
  qed
qed

lemma promise_all_rejected:
  assumes "settles_all sched (length outs)" and "i < length outs" and "isl (outs ! i)"
  shows "\<exists>e. promise_all sched outs = Rejected e \<and> Inl e \<in> set outs"
  unfolding promise_all_def
  using assms by (intro promise_all_steps_rejected) (auto simp: settles_all_iff)

subsection \<open>Doubles, slices and page counts\<close>

lemma math_ceil_div_eq: "math_ceil_div a b = - ((- a) div b)"
  unfolding math_ceil_div_def by (rule ceiling_divide_eq_div)

lemma round_mag_small: "a < 2 ^ 53 \<Longrightarrow> round_mag a = a"
  by (simp add: round_mag_def)

lemma to_double_exact: "\<bar>n\<bar> < 2 ^ 53 \<Longrightarrow> to_double n = Num n"
proof -
  assume a: "\<bar>n\<bar> < 2 ^ 53"
  then have m: "nat \<bar>n\<bar> < 2 ^ 53" by (simp add: nat_less_iff)
  have "(2::nat) ^ 53 \<le> 2 ^ 1024" by (rule power_increasing) simp_all
  with m have "\<not> (2::nat) ^ 1024 \<le> nat \<bar>n\<bar>" by linarith
  with m show ?thesis by (auto simp: to_double_def round_mag_small Let_def)
qed

lemma round_mag_big:
  assumes "2 ^ 53 \<le> a"
  shows "2 ^ 53 \<le> round_mag a"
proof -
  define L where "L = floorlog 2 a"
  define e where "e = L - 53"
  have pos: "0 < a" using assms by (simp add: order.strict_trans2[of 0 "2 ^ 53"])
  have lo: "2 ^ (L - 1) \<le> a" and hi: "a < 2 ^ L"
    using floorlog_bounds[of a 2] pos unfolding L_def by simp_all
  from assms hi have "(2::nat) ^ 53 < 2 ^ L" by linarith
  have L: "53 < L"
  proof (rule power_less_imp_less_exp)
    show "(1::nat) < 2" by simp
    show "(2::nat) ^ 53 < 2 ^ L" by fact
  qed
  then have e1: "L - 1 = 52 + e" unfolding e_def by simp
  have "(2::nat) ^ 52 * 2 ^ e \<le> a" using lo unfolding e1 by (simp add: power_add)
  then have q: "2 ^ 52 \<le> a div 2 ^ e"
    by (simp add: less_eq_div_iff_mult_less_eq)
  have "(2::nat) ^ 53 \<le> 2 ^ 52 * 2 ^ e"
    using L unfolding e_def by (cases "L - 53") (simp_all)
  also have "\<dots> \<le> (a div 2 ^ e) * 2 ^ e" using q by simp
  also have "\<dots> \<le> (if 2 ^ e < 2 * (a mod 2 ^ e) \<or> (2 * (a mod 2 ^ e) = 2 ^ e \<and> odd (a div 2 ^ e))
      then a div 2 ^ e + 1 else a div 2 ^ e) * 2 ^ e"
    by simp
  finally show ?thesis
    using assms by (simp add: round_mag_def Let_def L_def[symmetric] e_def[symmetric])
qed


lemma to_double_big:
  assumes "2 ^ 53 \<le> n"
  shows "to_double n = PosInf \<or> (\<exists>k. to_double n = Num k \<and> 2 ^ 53 \<le> k)"
proof -
  from assms have n: "0 \<le> n" by (simp add: order_trans[of 0 "2 ^ 53"])
  then have "2 ^ 53 \<le> nat \<bar>n\<bar>" using assms by (simp add: le_nat_iff)
  from round_mag_big[OF this] have "2 ^ 53 \<le> int (round_mag (nat \<bar>n\<bar>))"
    by (metis of_nat_le_iff of_nat_numeral of_nat_power)
  with n show ?thesis by (auto simp: to_double_def Let_def)
qed

lemma to_double_at_least:
  assumes "b \<le> n" and "0 \<le> b" and "b \<le> 2 ^ 53"
  shows "to_double n = PosInf \<or> (\<exists>k. to_double n = Num k \<and> b \<le> k)"
proof (cases "n < 2 ^ 53")
  case True
  with assms have "\<bar>n\<bar> < 2 ^ 53" by simp
  then have "to_double n = Num n" by (rule to_double_exact)
  with assms(1) show ?thesis by simp
next
  case False
  then have "2 ^ 53 \<le> n" by simp
  from to_double_big[OF this] assms(3) show ?thesis by force
qed

lemma js_slice_window:
  assumes "0 \<le> start" and "start \<le> fin"
  shows "js_slice xs (Num start) (Num fin) = take (nat (fin - start)) (drop (nat start) xs)"
proof (cases "start \<le> int (length xs)")
  case True
  with assms show ?thesis
    by (auto simp: js_slice_def relative_index_def Let_def min_def intro!: nth_equalityI)
next
  case False
  with assms show ?thesis by (simp add: js_slice_def relative_index_def Let_def min_def)
qed

lemma js_slice_beyond:
  assumes "start = PosInf \<or> (\<exists>k. start = Num k \<and> int (length xs) \<le> k)"
  shows "js_slice xs start fin = []"
proof -
  from assms have "relative_index (length xs) start = int (length xs)"
    by (auto simp: relative_index_def)
  then show ?thesis by (simp add: js_slice_def Let_def)
qed

lemma page_ids_window:
  assumes "1 \<le> p" and "length ids < 2 ^ 32"
  shows "page_ids ids (Num p) 20 = take 20 (drop (nat ((p - 1) * 20)) ids)"
proof (cases "p * 20 < 2 ^ 53")
  case True
  with assms(1) have a: "\<bar>p + - 1\<bar> < 2 ^ 53" "\<bar>(p - 1) * 20\<bar> < 2 ^ 53"
    "\<bar>(p - 1) * 20 + 20\<bar> < 2 ^ 53"
    by simp_all
  have "page_ids ids (Num p) 20 = js_slice ids (Num ((p - 1) * 20)) (Num ((p - 1) * 20 + 20))"
    using a by (simp add: page_ids_def js_add_def js_mul_def to_double_exact)
  also have "\<dots> = take 20 (drop (nat ((p - 1) * 20)) ids)"
    using assms(1) by (subst js_slice_window) simp_all
  finally show ?thesis .
next
  case False
  then have big: "2 ^ 32 \<le> p - 1" by simp
  have len: "int (length ids) \<le> 2 ^ 32" using assms(2) by simp
  let ?x = "js_add (Num p) (- 1)"
  have x: "?x = PosInf \<or> (\<exists>k. ?x = Num k \<and> 2 ^ 32 \<le> k)"
    using to_double_at_least[of "2 ^ 32" "p + - 1"] big by (simp add: js_add_def)
  have y: "js_mul ?x 20 = PosInf \<or> (\<exists>k. js_mul ?x 20 = Num k \<and> 2 ^ 32 \<le> k)"
  proof -
    from x show ?thesis
    proof
      assume "?x = PosInf"
      then show ?thesis by (simp add: js_mul_def)
    next
      assume "\<exists>k. ?x = Num k \<and> 2 ^ 32 \<le> k"
      then obtain k where k: "?x = Num k" "2 ^ 32 \<le> k" by blast
      then have "2 ^ 32 \<le> k * 20" by simp
      from to_double_at_least[OF this] k(1) show ?thesis by (simp add: js_mul_def)
    qed
  qed
  have "page_ids ids (Num p) 20 = []"
    unfolding page_ids_def
  proof (rule js_slice_beyond)
    from y len show "js_mul ?x 20 = PosInf \<or> (\<exists>k. js_mul ?x 20 = Num k \<and> int (length ids) \<le> k)"
      by force
  qed
  moreover have "length ids \<le> nat ((p - 1) * 20)"
  proof -
    from big len have "int (length ids) \<le> (p - 1) * 20" by simp
    then show ?thesis by (simp add: le_nat_iff)
  qed
  ultimately show ?thesis by simp
qed

lemma page_ids_first: "page_ids ids (Num 1) 20 = take 20 ids"
proof -
  have "page_ids ids (Num 1) 20 = js_slice ids (Num 0) (Num 20)"
    by (simp add: page_ids_def js_add_def js_mul_def to_double_exact)
  also have "\<dots> = take 20 ids" by (subst js_slice_window) simp_all
  finally show ?thesis .
qed

subsection \<open>The results of the handlers\<close>

lemma map_filter_shown:
  "List.map_filter (\<lambda>r. if displayable r then r else None) rs = concat (map shown rs)"
  by (induction rs) (auto simp: List.map_filter_simps displayable_def shown_def split: option.splits)

lemma search_handler_no_ids:
  assumes "get_search env (request_url req) = Inr data" and "carries_no_ids data"
  shows "search_handler env sched req =
    ([GetSearch (request_url req)],
     Some (Response 200 (RenderResults
       \<lparr>objects = [], currentPage = page_param (q_page req), totalPages = 0,
        view_departmentId = Some (or_empty (q_departmentId req)),
        view_keyword = Some (or_empty (q_keyword req)),
        view_location = Some (or_empty (q_location req)),
        view_message = Some ''No se encontraron resultados para los filtros aplicados.''\<rparr>)))"
  using assms
  by (auto simp: search_handler_def request_url_def carries_no_ids_def Let_def split: option.splits)

lemma search_handler_found:
  assumes "get_search env (request_url req) = Inr (Some d)"
    and "objectIDs d = Some ids" and "ids \<noteq> []"
    and "settles_all sched (length (page_ids ids (page_param (q_page req)) 20))"
  shows "search_handler env sched req =
    (GetSearch (request_url req) #
       concat (map (\<lambda>i. fst (search_item env i)) (page_ids ids (page_param (q_page req)) 20)),
     Some (Response 200 (RenderResults
       \<lparr>objects = concat (map (\<lambda>i. shown (snd (search_item env i)))
                     (page_ids ids (page_param (q_page req)) 20)),
        currentPage = page_param (q_page req),
        totalPages = math_ceil_div (case total d of None \<Rightarrow> 0 | Some t \<Rightarrow> t) 20,
        view_departmentId = Some (or_empty (q_departmentId req)),
        view_keyword = Some (or_empty (q_keyword req)),
        view_location = Some (or_empty (q_location req)),
        view_message = None\<rparr>)))"
proof -
  let ?slice = "page_ids ids (page_param (q_page req)) 20"
  have pa: "promise_all sched (map (\<lambda>it. Inr (snd it)) (map (search_item env) ?slice))
      = Fulfilled (map snd (map (search_item env) ?slice))"
    using assms(4) by (intro promise_all_Inr) simp
  show ?thesis
    using assms(1-3) pa
    by (simp add: search_handler_def request_url_def[symmetric] Let_def page_ids_def
        map_filter_shown comp_def)
qed

lemma results_handler_fails: "results_handler env sched req = ([], Some results_error)"
  by (simp add: results_handler_def getAllObjectsFromAPI_def)


subsection \<open>The calls of the handlers\<close>

lemma fetched_append: "fetched (xs @ ys) = fetched xs @ fetched ys"
  by (induction xs rule: fetched.induct) auto

lemma translated_append: "translated (xs @ ys) = translated xs @ translated ys"
  by (induction xs rule: translated.induct) auto

lemma fetched_translate_field: "fetched (fst (translate_field env f put obj)) = []"
  by (auto simp: translate_field_def split: option.splits sum.splits)

lemma fetched_search_item: "fetched (fst (search_item env i)) = [i]"
proof -
  have "\<And>f put obj c r. translate_field env f put obj = (c, r) \<Longrightarrow> fetched c = []"
    using fetched_translate_field by (metis fst_conv)
  then show ?thesis
    by (auto simp: search_item_def fetched_append split: sum.splits prod.splits)
qed

lemma fetched_concat_search_items:
  "fetched (concat (map (\<lambda>i. fst (search_item env i)) ids)) = ids"
  by (induction ids) (auto simp: fetched_append fetched_search_item)

lemma search_handler_calls:
  assumes "get_search env (request_url req) = Inr (Some d)"
    and "objectIDs d = Some ids" and "ids \<noteq> []"
  shows "fst (search_handler env sched req) =
    GetSearch (request_url req) #
      concat (map (\<lambda>i. fst (search_item env i)) (page_ids ids (page_param (q_page req)) 20))"
  using assms
  by (simp add: search_handler_def request_url_def[symmetric] Let_def page_ids_def comp_def)

lemma search_handler_first_call:
  "\<exists>rest. fst (search_handler env sched req) = GetSearch (request_url req) # rest"
  by (auto simp: search_handler_def request_url_def[symmetric] Let_def split: sum.splits option.splits)

subsection \<open>Views and sample runs\<close>

lemma view_of_render [simp]: "view_of (Some (Response st (RenderResults v))) = Some v"
  by (simp add: view_of_def)

lemma rendered_render [simp]: "rendered (Some (Response st (RenderResults v))) = objects v"
  by (simp add: rendered_def)

lemma rendered_text [simp]: "rendered (Some (Response st (Text t))) = []"
  by (simp add: rendered_def view_of_def)

lemma shown_truthy: "obj \<in> set (shown r) \<Longrightarrow> truthy (primaryImage obj)"
  by (auto simp: shown_def split: option.splits if_splits)

lemma shown_as_filter:
  "map Some (concat (map (\<lambda>i. shown (g i)) xs)) = map g (filter (\<lambda>i. displayable (g i)) xs)"
  by (induction xs) (auto simp: shown_def displayable_def split: option.splits)

lemma search_rendered_truthy:
  "obj \<in> set (rendered (snd (search_handler env sched req))) \<Longrightarrow> truthy (primaryImage obj)"
  by (auto simp: search_handler_def Let_def map_filter_shown search_error_def rendered_def view_of_def
      split: sum.splits option.splits promise_state.splits if_splits dest: shown_truthy)

lemmas parse_defs =
  parseInt_def ascii_space_def space2_def space3_def digit_val_def to_double_exact





lemma search_url_parts:
  "search_url dep kw loc =
     search_base @ (if dep \<noteq> [] then ''&departmentId='' @ dep else [])
       @ (if kw \<noteq> [] then ''&q='' @ kw else [])
       @ (if loc \<noteq> [] then ''&geoLocation='' @ loc else [])"
  by (simp add: search_url_def search_base_def Let_def)

lemma settles_all_rev_upt: "settles_all (rev [0..<n]) n"
  by (auto simp: settles_all_iff)

lemmas eval_defs =
  search_handler_def index_handler_def
  sample_env_def untranslated_env_def unreachable_env_def flaky_env_def no_match_env_def
  plain_request_def or_empty_def page_param_def js_falsy_def parse_defs
  search_url_def search_base_def request_url_def
  page_ids_def js_slice_def relative_index_def js_add_def js_mul_def
  search_item_def translate_field_def translate_department_def
  vase_def fragment_def bowl_def vase_es_def bowl_es_def
  not_found_def network_error_def promise_all_def
  displayable_def truthy_def shown_def
  math_ceil_div_eq search_error_def Let_def

lemma sample_page: "page_param (q_page plain_request) = Num 1"
  by (simp add: eval_defs)

lemma sample_slice: "page_ids [4, 2, 3, 1] (Num 1) 20 = [4, 2, 3, 1]"
  by (simp add: page_ids_first)

lemma sample_schedule: "settles_all [2, 0, 3, 1] 4"
  by code_simp

lemma sample_schedule_in_order: "settles_all [0, 1, 2, 3] 4"
  by code_simp

lemma sample_settles:
  "settles_all [2, 0, 3, 1] (length (page_ids [4, 2, 3, 1] (page_param (q_page plain_request)) 20))"
  "settles_all [0, 1, 2, 3] (length (page_ids [4, 2, 3, 1] (page_param (q_page plain_request)) 20))"
proof -
  have "length (page_ids [4, 2, 3, 1] (page_param (q_page plain_request)) 20) = 4"
    by (simp add: sample_page sample_slice)
  then show
    "settles_all [2, 0, 3, 1] (length (page_ids [4, 2, 3, 1] (page_param (q_page plain_request)) 20))"
    "settles_all [0, 1, 2, 3] (length (page_ids [4, 2, 3, 1] (page_param (q_page plain_request)) 20))"
    by (simp_all only: sample_schedule sample_schedule_in_order)
qed

lemma sample_search:
  "search_handler sample_env [2, 0, 3, 1] plain_request =
     ([GetSearch search_base, GetObject 4, Translate ''Bowl'', Translate ''Ming'',
       GetObject 2, Translate ''Fragment'', GetObject 3,
       GetObject 1, Translate ''Vase'', Translate ''Greek''],
      Some (Response 200 (RenderResults
        \<lparr>objects = [bowl_es, vase_es], currentPage = Num 1, totalPages = 3,
         view_departmentId = Some [], view_keyword = Some [], view_location = Some [],
         view_message = None\<rparr>)))"
  by (simp add: eval_defs)

lemma untranslated_search:
  "search_handler untranslated_env [2, 0, 3, 1] plain_request =
     ([GetSearch search_base, GetObject 4, Translate ''Bowl'',
       GetObject 2, Translate ''Fragment'', GetObject 3,
       GetObject 1, Translate ''Vase''],
      Some (Response 200 (RenderResults
        \<lparr>objects = [], currentPage = Num 1, totalPages = 3,
         view_departmentId = Some [], view_keyword = Some [], view_location = Some [],
         view_message = None\<rparr>)))"
  by (simp add: eval_defs)

lemma unreachable_search:
  "search_handler unreachable_env [2, 0, 3, 1] plain_request =
     ([GetSearch search_base, GetObject 4, GetObject 2, GetObject 3, GetObject 1],
      Some (Response 200 (RenderResults
        \<lparr>objects = [], currentPage = Num 1, totalPages = 3,
         view_departmentId = Some [], view_keyword = Some [], view_location = Some [],
         view_message = None\<rparr>)))"
  by (simp add: eval_defs)

lemma sample_found:
  "get_search sample_env (request_url plain_request)
     = Inr (Some \<lparr>total = Some 45, objectIDs = Some [4, 2, 3, 1]\<rparr>)"
  "get_search flaky_env (request_url plain_request)
     = Inr (Some \<lparr>total = Some 45, objectIDs = Some [4, 2, 3, 1]\<rparr>)"
  by (simp_all add: sample_env_def flaky_env_def)

lemma sample_items:
  "search_item sample_env 4 = ([GetObject 4, Translate ''Bowl'', Translate ''Ming''], Some bowl_es)"
  "search_item sample_env 2 =
     ([GetObject 2, Translate ''Fragment''], Some (fragment\<lparr>title := Some ''es:Fragment''\<rparr>))"
  "search_item sample_env 3 = ([GetObject 3], None)"
  "search_item sample_env 1 = ([GetObject 1, Translate ''Vase'', Translate ''Greek''], Some vase_es)"
  by (simp_all add: eval_defs)

lemma flaky_items:
  "search_item flaky_env 4 = ([GetObject 4, Translate ''Bowl'', Translate ''Ming''], Some bowl_es)"
  "search_item flaky_env 2 = ([GetObject 2], None)"
  "search_item flaky_env 3 = ([GetObject 3], None)"
  "search_item flaky_env 1 = ([GetObject 1, Translate ''Vase'', Translate ''Greek''], Some vase_es)"
  by (simp_all add: eval_defs)

lemma sample_shown:
  "shown (Some bowl_es) = [bowl_es]" "shown (Some vase_es) = [vase_es]"
  "shown (Some (fragment\<lparr>title := Some ''es:Fragment''\<rparr>)) = []" "shown None = []"
  by (simp_all add: shown_def truthy_def bowl_es_def vase_es_def bowl_def vase_def fragment_def)

lemma length_ids45: "length ids45 = 45"
  by (simp add: ids45_def)

section \<open>The claims\<close>

subsection \<open>Translation failures\<close>

text \<open>
  Claim C1. When a translation call fails, the affected field keeps its untranslated text,
  the item is not removed and the request does not fail, on \<^verbatim>\<open>/\<close> and on \<^verbatim>\<open>/search\<close>.

  The department list does so: the translation has a \<^verbatim>\<open>try\<close> of its own, whose
  \<^verbatim>\<open>catch\<close> returns the original name. The search page does not: its translations are
  awaited inside the \<^verbatim>\<open>try\<close> of the object fetch, whose \<^verbatim>\<open>catch\<close> logs a retrieval
  error and returns \<^verbatim>\<open>null\<close>. With the translation service down, object 1 is fetched,
  has a title and an image, and is not rendered: the page shows no object at all, while
  the department list shows the original name.
\<close>

theorem translation_failure_drops_search_object:
  "translate untranslated_env ''Vase'' = Inl network_error
   \<and> get_object untranslated_env 1 = Inr vase
   \<and> title vase = Some ''Vase'' \<and> truthy (primaryImage vase)
   \<and> search_item untranslated_env 1 = ([GetObject 1, Translate ''Vase''], None)
   \<and> snd (search_handler untranslated_env [2, 0, 3, 1] plain_request) =
       Some (Response 200 (RenderResults
         \<lparr>objects = [], currentPage = Num 1, totalPages = 3,
          view_departmentId = Some [], view_keyword = Some [], view_location = Some [],
          view_message = None\<rparr>))
   \<and> index_handler untranslated_env [0] =
       Some (Response 200 (RenderIndex [\<lparr>departmentId = 1, displayName = ''Arms and Armor''\<rparr>]))"
proof -
  have "index_handler untranslated_env [0] =
      Some (Response 200 (RenderIndex [\<lparr>departmentId = 1, displayName = ''Arms and Armor''\<rparr>]))"
    by (simp add: eval_defs)
  moreover have "search_item untranslated_env 1 = ([GetObject 1, Translate ''Vase''], None)"
    by (simp add: eval_defs)
  moreover have "translate untranslated_env ''Vase'' = Inl network_error"
    "get_object untranslated_env 1 = Inr vase"
    "title vase = Some ''Vase''" "truthy (primaryImage vase)"
    by (simp_all add: untranslated_env_def sample_env_def vase_def truthy_def)
  ultimately show ?thesis using untranslated_search by simp
qed

subsection \<open>Failures of an object fetch\<close>

text \<open>
  Claim C2, as stated, says that in both \<^verbatim>\<open>/search\<close> and \<^verbatim>\<open>/results\<close> a fetch that fails
  with anything but a 404 fails the whole request with status 500. On \<^verbatim>\<open>/search\<close> it
  does not: the mapper catches every error and returns \<^verbatim>\<open>null\<close>. Here every object
  fetch fails with a network error (no status at all) and the search page is rendered
  with status 200 and no object.
\<close>

theorem search_survives_fetch_error:
  "get_object unreachable_env 4 = Inl network_error
   \<and> err_status network_error \<noteq> Some 404
   \<and> snd (search_handler unreachable_env [2, 0, 3, 1] plain_request) =
       Some (Response 200 (RenderResults
         \<lparr>objects = [], currentPage = Num 1, totalPages = 3,
          view_departmentId = Some [], view_keyword = Some [], view_location = Some [],
          view_message = None\<rparr>))"
  using unreachable_search by (simp add: unreachable_env_def network_error_def)

text \<open>
  Claim C2, amended. On \<^verbatim>\<open>/search\<close>, an id whose fetch fails in any way, with a 404 or
  with anything else, yields \<^verbatim>\<open>null\<close> and is dropped, without affecting the other ids of
  the batch: the page is rendered with status 200 and shows, in the order of the ids,
  what the mapper of each id returned. No failure of an object fetch fails the request.
\<close>

theorem search_fetch_errors_dropped:
  assumes "get_search env (request_url req) = Inr (Some d)"
    and "objectIDs d = Some ids" and "ids \<noteq> []"
    and "settles_all sched (length (page_ids ids (page_param (q_page req)) 20))"
  shows "map_option status (snd (search_handler env sched req)) = Some 200
    \<and> rendered (snd (search_handler env sched req))
        = concat (map (\<lambda>i. shown (snd (search_item env i)))
            (page_ids ids (page_param (q_page req)) 20))
    \<and> (\<forall>i e. get_object env i = Inl e \<longrightarrow> search_item env i = ([GetObject i], None))"
proof (intro conjI impI allI)
  from search_handler_found[OF assms]
  show "map_option status (snd (search_handler env sched req)) = Some 200"
    and "rendered (snd (search_handler env sched req))
      = concat (map (\<lambda>i. shown (snd (search_item env i)))
          (page_ids ids (page_param (q_page req)) 20))"
    by simp_all
next
  fix i e assume "get_object env i = Inl e"
  then show "search_item env i = ([GetObject i], None)" by (simp add: search_item_def)
qed

text \<open>
  The ids of the page are 4, 2, 3, 1. The fetch of object 2 fails with a network error and
  that of object 3 with a 404: both are dropped, and the objects 4 and 1 are rendered.
\<close>

theorem search_fetch_errors_dropped_witness:
  "get_search flaky_env (request_url plain_request)
     = Inr (Some \<lparr>total = Some 45, objectIDs = Some [4, 2, 3, 1]\<rparr>)
   \<and> settles_all [2, 0, 3, 1] (length (page_ids [4, 2, 3, 1] (page_param (q_page plain_request)) 20))
   \<and> get_object flaky_env 2 = Inl network_error \<and> err_status network_error = None
   \<and> get_object flaky_env 3 = Inl not_found \<and> err_status not_found = Some 404
   \<and> search_item flaky_env 2 = ([GetObject 2], None)
   \<and> search_item flaky_env 3 = ([GetObject 3], None)
   \<and> map_option status (snd (search_handler flaky_env [2, 0, 3, 1] plain_request)) = Some 200
   \<and> rendered (snd (search_handler flaky_env [2, 0, 3, 1] plain_request)) = [bowl_es, vase_es]"
proof -
  let ?d = "\<lparr>total = Some 45, objectIDs = Some [4, 2, 3, 1]\<rparr>"
  have o: "objectIDs ?d = Some [4, 2, 3, 1]" "[4, 2, 3, 1] \<noteq> ([] :: int list)"
    by simp_all
  have u: "get_object flaky_env 2 = Inl network_error" "err_status network_error = None"
    "get_object flaky_env 3 = Inl not_found" "err_status not_found = Some 404"
    by (simp_all add: flaky_env_def sample_env_def network_error_def not_found_def)
  note t = search_fetch_errors_dropped [OF sample_found(2) o sample_settles(1)]
  from t u(1) have i2: "search_item flaky_env 2 = ([GetObject 2], None)" by blast
  from t u(3) have i3: "search_item flaky_env 3 = ([GetObject 3], None)" by blast
  from t have st: "map_option status (snd (search_handler flaky_env [2, 0, 3, 1] plain_request))
      = Some 200"
    by blast
  from t have "rendered (snd (search_handler flaky_env [2, 0, 3, 1] plain_request))
      = concat (map (\<lambda>i. shown (snd (search_item flaky_env i)))
          (page_ids [4, 2, 3, 1] (page_param (q_page plain_request)) 20))"
    by blast
  then have r: "rendered (snd (search_handler flaky_env [2, 0, 3, 1] plain_request))
      = [bowl_es, vase_es]"
    by (simp add: sample_page sample_slice flaky_items sample_shown)
  from sample_found(2) sample_settles(1) u i2 i3 st r show ?thesis by blast
qed

subsection \<open>Objects without an image\<close>

text \<open>
  Claim C3. In every result set that the aggregation flows render, no object lacks a
  \<^verbatim>\<open>primaryImage\<close>, and the filter is applied after translation. On \<^verbatim>\<open>/search\<close> every
  rendered object has a non-empty \<^verbatim>\<open>primaryImage\<close>, and the rendered objects are what
  the filter keeps of the objects the mappers return, that is of the translated objects.
  \<^verbatim>\<open>/results\<close> renders no object at all: the handler fails before it builds a result set.
\<close>

theorem rendered_objects_have_image:
  "(\<forall>obj \<in> set (rendered (snd (search_handler env sched req))). truthy (primaryImage obj))
   \<and> (get_search env (request_url req) = Inr (Some d) \<and> objectIDs d = Some ids \<and> ids \<noteq> []
        \<and> settles_all sched (length (page_ids ids (page_param (q_page req)) 20))
      \<longrightarrow> rendered (snd (search_handler env sched req))
            = concat (map (\<lambda>i. shown (snd (search_item env i)))
                (page_ids ids (page_param (q_page req)) 20)))
   \<and> rendered (snd (results_handler env sched' req)) = []"
proof (intro conjI ballI impI)
  fix obj assume "obj \<in> set (rendered (snd (search_handler env sched req)))"
  then show "truthy (primaryImage obj)" by (rule search_rendered_truthy)
next
  assume "get_search env (request_url req) = Inr (Some d) \<and> objectIDs d = Some ids \<and> ids \<noteq> []
        \<and> settles_all sched (length (page_ids ids (page_param (q_page req)) 20))"
  then show "rendered (snd (search_handler env sched req))
            = concat (map (\<lambda>i. shown (snd (search_item env i)))
                (page_ids ids (page_param (q_page req)) 20))"
    using search_handler_found[of env req d ids sched] by simp
next
  show "rendered (snd (results_handler env sched' req)) = []"
    by (simp add: results_handler_fails results_error_def)
qed

text \<open>
  Object 2 has no \<^verbatim>\<open>primaryImage\<close>: it is fetched, its title is translated, and the search
  page leaves it out. The objects rendered have an image.
\<close>

theorem rendered_objects_have_image_witness:
  "get_search sample_env (request_url plain_request)
     = Inr (Some \<lparr>total = Some 45, objectIDs = Some [4, 2, 3, 1]\<rparr>)
   \<and> settles_all [2, 0, 3, 1] (length (page_ids [4, 2, 3, 1] (page_param (q_page plain_request)) 20))
   \<and> snd (search_item sample_env 2) = Some (fragment\<lparr>title := Some ''es:Fragment''\<rparr>)
   \<and> primaryImage (fragment\<lparr>title := Some ''es:Fragment''\<rparr>) = None
   \<and> rendered (snd (search_handler sample_env [2, 0, 3, 1] plain_request)) = [bowl_es, vase_es]
   \<and> truthy (primaryImage bowl_es) \<and> truthy (primaryImage vase_es)
   \<and> rendered (snd (results_handler sample_env [2, 0, 3, 1] plain_request)) = []"
proof -
  let ?d = "\<lparr>total = Some 45, objectIDs = Some [4, 2, 3, 1]\<rparr>"
  note t = rendered_objects_have_image
    [of sample_env "[2, 0, 3, 1]" plain_request ?d "[4, 2, 3, 1]" "[2, 0, 3, 1]"]
  have o: "objectIDs ?d = Some [4, 2, 3, 1]" "[4, 2, 3, 1] \<noteq> ([] :: int list)"
    by simp_all
  from t sample_found(1) o sample_settles(1)
  have "rendered (snd (search_handler sample_env [2, 0, 3, 1] plain_request))
      = concat (map (\<lambda>i. shown (snd (search_item sample_env i)))
          (page_ids [4, 2, 3, 1] (page_param (q_page plain_request)) 20))"
    by blast
  then have a: "rendered (snd (search_handler sample_env [2, 0, 3, 1] plain_request))
      = [bowl_es, vase_es]"
    by (simp add: sample_page sample_slice sample_items sample_shown)
  from t a have tr: "truthy (primaryImage bowl_es)" "truthy (primaryImage vase_es)"
    by simp_all
  from t have b: "rendered (snd (results_handler sample_env [2, 0, 3, 1] plain_request)) = []"
    by blast
  have f: "snd (search_item sample_env 2) = Some (fragment\<lparr>title := Some ''es:Fragment''\<rparr>)"
    "primaryImage (fragment\<lparr>title := Some ''es:Fragment''\<rparr>) = None"
    by (simp_all add: sample_items fragment_def)
  from sample_found(1) sample_settles(1) f a tr b show ?thesis by blast
qed

subsection \<open>Pagination\<close>

text \<open>
  Claim C4. For every page number \<open>p \<ge> 1\<close> the ids taken are those of the listing at the
  positions from \<open>(p - 1) * pageSize\<close> up to, and without, \<open>(p - 1) * pageSize + pageSize\<close>,
  the page size being 20 on \<^verbatim>\<open>/search\<close> and 10 on \<^verbatim>\<open>/results\<close>, and the number of pages
  is the ceiling of the total over the page size.

  \<^verbatim>\<open>/search\<close> does so, for every page number that a double holds and every array of ids
  (an array has fewer than \<open>2 ^ 32\<close> elements). \<^verbatim>\<open>/results\<close> does not: for every page it
  fails at the call of the undefined \<^verbatim>\<open>getAllObjectsFromAPI\<close>, before its slice and its
  page count, fetches nothing and answers 500.
\<close>

theorem pagination:
  assumes "page_param (q_page req) = Num p" and "1 \<le> p"
    and "get_search env (request_url req) = Inr (Some d)"
    and "objectIDs d = Some ids" and "ids \<noteq> []" and "length ids < 2 ^ 32"
    and "settles_all sched (length (page_ids ids (Num p) 20))"
  shows "fetched (fst (search_handler env sched req)) = take 20 (drop (nat ((p - 1) * 20)) ids)
    \<and> map_option totalPages (view_of (snd (search_handler env sched req)))
        = Some \<lceil>real_of_int (case total d of None \<Rightarrow> 0 | Some t \<Rightarrow> t) / 20\<rceil>
    \<and> results_handler env sched' req
        = ([], Some (Response 500 (Text ''Error al obtener resultados'')))"
proof -
  have a: "fetched (fst (search_handler env sched req)) = take 20 (drop (nat ((p - 1) * 20)) ids)"
    using search_handler_calls[OF assms(3,4,5), of sched] assms(1) page_ids_window[OF assms(2,6)]
    by (simp add: fetched_concat_search_items)
  have c: "map_option totalPages (view_of (snd (search_handler env sched req)))
      = Some \<lceil>real_of_int (case total d of None \<Rightarrow> 0 | Some t \<Rightarrow> t) / 20\<rceil>"
    using search_handler_found[of env req d ids sched] assms(1,3,4,5,7)
    by (simp add: math_ceil_div_def)
  have r: "results_handler env sched' req
      = ([], Some (Response 500 (Text ''Error al obtener resultados'')))"
    by (simp add: results_handler_fails results_error_def)
  from a c r show ?thesis by blast
qed

text \<open>
  Page 2 of a search with 45 ids and a total of 45: the search page fetches the ids 21 to
  40, that is from offset 20, and counts 3 pages; the results page answers 500.
\<close>

theorem pagination_witness:
  "page_param (q_page (plain_request\<lparr>q_page := Some ''2''\<rparr>)) = Num 2 \<and> (1 :: int) \<le> 2
   \<and> get_search env45 (request_url (plain_request\<lparr>q_page := Some ''2''\<rparr>))
        = Inr (Some \<lparr>total = Some 45, objectIDs = Some ids45\<rparr>)
   \<and> ids45 \<noteq> [] \<and> length ids45 < 2 ^ 32
   \<and> settles_all (rev [0..<20]) (length (page_ids ids45 (Num 2) 20))
   \<and> fetched (fst (search_handler env45 (rev [0..<20]) (plain_request\<lparr>q_page := Some ''2''\<rparr>)))
        = map int [21..<41]
   \<and> map_option totalPages
        (view_of (snd (search_handler env45 (rev [0..<20]) (plain_request\<lparr>q_page := Some ''2''\<rparr>))))
        = Some 3
   \<and> results_handler env45 (rev [0..<10]) (plain_request\<lparr>q_page := Some ''2''\<rparr>)
        = ([], Some (Response 500 (Text ''Error al obtener resultados'')))"
proof -
  let ?req = "plain_request\<lparr>q_page := Some ''2''\<rparr>"
  let ?d = "\<lparr>total = Some 45, objectIDs = Some ids45\<rparr>"
  have p: "page_param (q_page ?req) = Num 2"
    by (simp add: page_param_def js_falsy_def parse_defs)
  have one: "(1 :: int) \<le> 2" by simp
  have s: "get_search env45 (request_url ?req) = Inr (Some ?d)"
    by (simp add: env45_def sample_env_def)
  have o: "objectIDs ?d = Some ids45" by simp
  have ne: "ids45 \<noteq> []" by (simp add: ids45_def)
  have len: "length ids45 < 2 ^ 32" by (simp add: length_ids45)
  have l20: "length (page_ids ids45 (Num 2) 20) = 20"
    using page_ids_window[OF one len] by (simp add: length_ids45)
  have s20: "settles_all (rev [0..<20]) (length (page_ids ids45 (Num 2) 20))"
    unfolding l20 by (rule settles_all_rev_upt)
  have t20: "take 20 (drop (nat ((2 - 1) * 20)) ids45) = map int [21..<41]"
    by (simp add: ids45_def drop_map take_map)
  have c3: "\<lceil>real_of_int (case total ?d of None \<Rightarrow> 0 | Some t \<Rightarrow> t) / 20\<rceil> = 3" by simp
  from pagination [OF p one s o ne len s20, of "rev [0..<10]"]
  show ?thesis
    unfolding t20 c3 using p one s ne len s20 by blast
qed

text \<open>
  Claim C5. Without an upstream failure \<^verbatim>\<open>GET /results\<close> renders a page of the catalogue
  and counts the pages from the length of the full id listing.

  It does not: the handler calls \<^verbatim>\<open>getAllObjectsFromAPI\<close>, which the module neither
  declares nor imports. For every request, whatever the collection API and the
  translation service answer, the handler fetches no object and answers 500.
\<close>

theorem results_always_fails:
  "results_handler env sched req = ([], Some (Response 500 (Text ''Error al obtener resultados'')))
   \<and> view_of (snd (results_handler env sched req)) = None"
  by (simp add: results_handler_fails results_error_def view_of_def)



subsection \<open>The search request\<close>

text \<open>
  Claim C6. When the search response carries no object id (no body, \<^verbatim>\<open>objectIDs\<close> not an
  array, or an empty array), \<^verbatim>\<open>/search\<close> renders a page with no object and a non-empty
  message, and the only upstream call it makes is the search itself: no object is
  fetched and nothing is translated.
\<close>

theorem search_no_ids_short_circuit:
  assumes "get_search env (request_url req) = Inr data" and "carries_no_ids data"
  shows "\<exists>v m. search_handler env sched req =
            ([GetSearch (request_url req)], Some (Response 200 (RenderResults v)))
          \<and> objects v = [] \<and> view_message v = Some m \<and> m \<noteq> []
          \<and> fetched (fst (search_handler env sched req)) = []
          \<and> translated (fst (search_handler env sched req)) = []"
  using search_handler_no_ids[OF assms, of sched] by simp

theorem search_no_ids_short_circuit_witness:
  "get_search no_match_env (request_url plain_request)
     = Inr (Some \<lparr>total = Some 0, objectIDs = None\<rparr>)
   \<and> carries_no_ids (Some \<lparr>total = Some 0, objectIDs = None\<rparr>)
   \<and> (\<exists>v m. search_handler no_match_env [] plain_request =
            ([GetSearch (request_url plain_request)], Some (Response 200 (RenderResults v)))
          \<and> objects v = [] \<and> view_message v = Some m \<and> m \<noteq> []
          \<and> fetched (fst (search_handler no_match_env [] plain_request)) = []
          \<and> translated (fst (search_handler no_match_env [] plain_request)) = [])"
proof -
  have a: "get_search no_match_env (request_url plain_request)
      = Inr (Some \<lparr>total = Some 0, objectIDs = None\<rparr>)"
    by (simp add: no_match_env_def sample_env_def)
  have b: "carries_no_ids (Some \<lparr>total = Some 0, objectIDs = None\<rparr>)"
    by (simp add: carries_no_ids_def)
  from search_no_ids_short_circuit [OF a b, of "[]"] a b show ?thesis by blast
qed

text \<open>
  Claim C9, as stated, says that each filter is sent upstream exactly when it is present
  in the request. A filter that is present with an empty value, as a form sends an empty
  field, is not sent: here \<^verbatim>\<open>keyword\<close> is present and empty, and the URL has no \<^verbatim>\<open>q\<close>.
\<close>

theorem empty_filter_omitted:
  "q_keyword (plain_request\<lparr>q_keyword := Some []\<rparr>) = Some []
   \<and> fst (search_handler no_match_env [] (plain_request\<lparr>q_keyword := Some []\<rparr>))
       = [GetSearch ''https://collectionapi.metmuseum.org/public/collection/v1/search?hasImages=true'']"
  by (simp add: search_handler_def search_url_def or_empty_def plain_request_def
      no_match_env_def sample_env_def Let_def)

text \<open>
  Claim C9, amended. The first upstream call of every \<^verbatim>\<open>/search\<close> request is the search,
  and its URL is the base URL, which ends in \<^verbatim>\<open>hasImages=true\<close>, followed by
  \<^verbatim>\<open>&departmentId=\<close>, \<^verbatim>\<open>&q=\<close> and \<^verbatim>\<open>&geoLocation=\<close> with the value of the filter, in this
  order, each exactly when its filter is present in the request with a non-empty value;
  a filter that is absent or empty is omitted.
\<close>

theorem search_url_filters:
  "\<exists>rest. fst (search_handler env sched req) =
     GetSearch (search_base
        @ (if truthy (q_departmentId req)
           then ''&departmentId='' @ or_empty (q_departmentId req) else [])
        @ (if truthy (q_keyword req) then ''&q='' @ or_empty (q_keyword req) else [])
        @ (if truthy (q_location req) then ''&geoLocation='' @ or_empty (q_location req) else []))
     # rest"
proof -
  have "request_url req = search_base
        @ (if truthy (q_departmentId req)
           then ''&departmentId='' @ or_empty (q_departmentId req) else [])
        @ (if truthy (q_keyword req) then ''&q='' @ or_empty (q_keyword req) else [])
        @ (if truthy (q_location req) then ''&geoLocation='' @ or_empty (q_location req) else [])"
    unfolding request_url_def search_url_parts
    by (simp add: truthy_def or_empty_def split: option.splits)
  with search_handler_first_call[of env sched req] show ?thesis by simp
qed

text \<open>A request with a keyword and a location, and no department.\<close>

theorem search_url_filters_witness:
  "\<exists>rest. fst (search_handler sample_env [2, 0, 3, 1]
       (plain_request\<lparr>q_keyword := Some ''cat'', q_location := Some ''Paris''\<rparr>)) =
     GetSearch
       ''https://collectionapi.metmuseum.org/public/collection/v1/search?hasImages=true&q=cat&geoLocation=Paris''
     # rest"
  using search_url_filters [of sample_env "[2, 0, 3, 1]"
      "plain_request\<lparr>q_keyword := Some ''cat'', q_location := Some ''Paris''\<rparr>"]
  by (simp add: truthy_def or_empty_def plain_request_def search_base_def)

subsection \<open>The order of the objects\<close>

text \<open>
  Claim C8. On \<^verbatim>\<open>/search\<close> the objects rendered are the results of the mappers for the ids
  of the page that are kept by the filter, in the order of the ids, and the response
  does not depend on the order in which the fetches and translations complete.
\<close>

theorem search_order_preserved:
  assumes "get_search env (request_url req) = Inr (Some d)"
    and "objectIDs d = Some ids" and "ids \<noteq> []"
    and "settles_all sched (length (page_ids ids (page_param (q_page req)) 20))"
    and "settles_all sched' (length (page_ids ids (page_param (q_page req)) 20))"
  shows "search_handler env sched req = search_handler env sched' req
    \<and> map Some (rendered (snd (search_handler env sched req)))
        = map (\<lambda>i. snd (search_item env i))
            (filter (\<lambda>i. displayable (snd (search_item env i)))
              (page_ids ids (page_param (q_page req)) 20))
    \<and> subseq (filter (\<lambda>i. displayable (snd (search_item env i)))
                (page_ids ids (page_param (q_page req)) 20))
             (page_ids ids (page_param (q_page req)) 20)"
proof -
  have "search_handler env sched req = search_handler env sched' req"
    using search_handler_found[OF assms(1,2,3,4)] search_handler_found[OF assms(1,2,3,5)]
    by simp
  moreover have "map Some (rendered (snd (search_handler env sched req)))
        = map (\<lambda>i. snd (search_item env i))
            (filter (\<lambda>i. displayable (snd (search_item env i)))
              (page_ids ids (page_param (q_page req)) 20))"
    using search_handler_found[OF assms(1,2,3,4)]
    by (simp add: shown_as_filter del: map_concat)
  ultimately show ?thesis by simp
qed

text \<open>
  The ids of the page are 4, 2, 3, 1; the fetches complete in the order 3, 4, 1, 2, or in
  the order of the ids; the objects 4 and 1 are rendered, in this order.
\<close>

theorem search_order_preserved_witness:
  "get_search sample_env (request_url plain_request)
     = Inr (Some \<lparr>total = Some 45, objectIDs = Some [4, 2, 3, 1]\<rparr>)
   \<and> settles_all [2, 0, 3, 1] (length (page_ids [4, 2, 3, 1] (page_param (q_page plain_request)) 20))
   \<and> settles_all [0, 1, 2, 3] (length (page_ids [4, 2, 3, 1] (page_param (q_page plain_request)) 20))
   \<and> search_handler sample_env [2, 0, 3, 1] plain_request
       = search_handler sample_env [0, 1, 2, 3] plain_request
   \<and> map Some (rendered (snd (search_handler sample_env [2, 0, 3, 1] plain_request)))
       = [Some bowl_es, Some vase_es]
   \<and> subseq [4, 1] [4, 2, 3, 1 :: int]"
proof -
  let ?d = "\<lparr>total = Some 45, objectIDs = Some [4, 2, 3, 1]\<rparr>"
  have o: "objectIDs ?d = Some [4, 2, 3, 1]" "[4, 2, 3, 1] \<noteq> ([] :: int list)"
    by simp_all
  have k: "filter (\<lambda>i. displayable (snd (search_item sample_env i))) [4, 2, 3, 1] = [4, 1]"
    by (simp add: sample_items displayable_def truthy_def bowl_es_def vase_es_def bowl_def
        vase_def fragment_def)
  note t = search_order_preserved [OF sample_found(1) o sample_settles(1) sample_settles(2),
      unfolded sample_page sample_slice k]
  from t have e1: "search_handler sample_env [2, 0, 3, 1] plain_request
       = search_handler sample_env [0, 1, 2, 3] plain_request"
    by (rule conjunct1)
  from t have "map Some (rendered (snd (search_handler sample_env [2, 0, 3, 1] plain_request)))
       = map (\<lambda>i. snd (search_item sample_env i)) [4, 1]"
    by blast
  then have e2: "map Some (rendered (snd (search_handler sample_env [2, 0, 3, 1] plain_request)))
       = [Some bowl_es, Some vase_es]"
    by (simp add: sample_items)
  from t have e3: "subseq [4, 1] [4, 2, 3, 1 :: int]" by blast
  from sample_found(1) sample_settles(1,2) e1 e2 e3 show ?thesis by blast
qed

subsection \<open>Additional images\<close>

text \<open>
  Claim C7. For every \<^verbatim>\<open>GET /object/:id/additional-images\<close> whose fetched object has no
  \<^verbatim>\<open>additionalImages\<close> field, or an empty one, the response is the JSON array
  \<^verbatim>\<open>[]\<close> with status 200, never an error response.
\<close>

theorem additional_images_empty:
  assumes "get_object_path env objectId = Inr obj"
    and "additionalImages obj = None \<or> additionalImages obj = Some []"
  shows "additional_images_handler env objectId = Response 200 (Json [])"
  using assms by (auto simp: additional_images_handler_def)

text \<open>The field is absent in the object \<open>fragment\<close> and empty in \<open>vase\<close>.\<close>

theorem additional_images_empty_witness:
  "get_object_path sample_env ''2'' = Inr fragment
   \<and> (additionalImages fragment = None \<or> additionalImages fragment = Some [])
   \<and> additional_images_handler sample_env ''2'' = Response 200 (Json [])
   \<and> get_object_path sample_env ''1'' = Inr vase
   \<and> (additionalImages vase = None \<or> additionalImages vase = Some [])
   \<and> additional_images_handler sample_env ''1'' = Response 200 (Json [])"
  using additional_images_empty [of sample_env "''2''" fragment]
    additional_images_empty [of sample_env "''1''" vase]
  by (simp add: sample_env_def fragment_def vase_def)

end
